theory Spec2Isabelle
  imports Main "HOL-Library.Word" "HOL-Library.Char_ord" "HOL-Library.List_Lexorder"
begin

unbundle bit_operations_syntax

section \<open>The library functions the ledger calls\<close>

subsection \<open>hashlib.sha256 (FIPS 180-4)\<close>

text \<open>
  \<^verbatim>\<open>blockchain.py\<close> calls \<^verbatim>\<open>hashlib.sha256(bytes).hexdigest()\<close> in \<^verbatim>\<open>hash\<close> and in
  \<^verbatim>\<open>valid_proof\<close>. The digest is modelled as the standard defines it, on 32-bit words
  whose addition wraps around.
\<close>

type_synonym byte = "8 word"
type_synonym u32 = "32 word"

definition rotr :: "nat \<Rightarrow> u32 \<Rightarrow> u32" where
  "rotr n x = drop_bit n x OR push_bit (32 - n) x"

definition Ch :: "u32 \<Rightarrow> u32 \<Rightarrow> u32 \<Rightarrow> u32" where
  "Ch x y z = (x AND y) XOR (NOT x AND z)"

definition Maj :: "u32 \<Rightarrow> u32 \<Rightarrow> u32 \<Rightarrow> u32" where
  "Maj x y z = (x AND y) XOR (x AND z) XOR (y AND z)"

definition bsig0 :: "u32 \<Rightarrow> u32" where
  "bsig0 x = rotr 2 x XOR rotr 13 x XOR rotr 22 x"

definition bsig1 :: "u32 \<Rightarrow> u32" where
  "bsig1 x = rotr 6 x XOR rotr 11 x XOR rotr 25 x"

definition ssig0 :: "u32 \<Rightarrow> u32" where
  "ssig0 x = rotr 7 x XOR rotr 18 x XOR drop_bit 3 x"

definition ssig1 :: "u32 \<Rightarrow> u32" where
  "ssig1 x = rotr 17 x XOR rotr 19 x XOR drop_bit 10 x"

text \<open>The sixty-four round constants, in the eight rows of the standard's table.\<close>

definition sha256_K :: "u32 list" where
  "sha256_K =
     [0x428a2f98, 0x71374491, 0xb5c0fbcf, 0xe9b5dba5, 0x3956c25b, 0x59f111f1, 0x923f82a4, 0xab1c5ed5] @
     [0xd807aa98, 0x12835b01, 0x243185be, 0x550c7dc3, 0x72be5d74, 0x80deb1fe, 0x9bdc06a7, 0xc19bf174] @
     [0xe49b69c1, 0xefbe4786, 0x0fc19dc6, 0x240ca1cc, 0x2de92c6f, 0x4a7484aa, 0x5cb0a9dc, 0x76f988da] @
     [0x983e5152, 0xa831c66d, 0xb00327c8, 0xbf597fc7, 0xc6e00bf3, 0xd5a79147, 0x06ca6351, 0x14292967] @
     [0x27b70a85, 0x2e1b2138, 0x4d2c6dfc, 0x53380d13, 0x650a7354, 0x766a0abb, 0x81c2c92e, 0x92722c85] @
     [0xa2bfe8a1, 0xa81a664b, 0xc24b8b70, 0xc76c51a3, 0xd192e819, 0xd6990624, 0xf40e3585, 0x106aa070] @
     [0x19a4c116, 0x1e376c08, 0x2748774c, 0x34b0bcb5, 0x391c0cb3, 0x4ed8aa4a, 0x5b9cca4f, 0x682e6ff3] @
     [0x748f82ee, 0x78a5636f, 0x84c87814, 0x8cc70208, 0x90befffa, 0xa4506ceb, 0xbef9a3f7, 0xc67178f2]"

definition sha256_H0 :: "u32 list" where
  "sha256_H0 =
    [0x6a09e667, 0xbb67ae85, 0x3c6ef372, 0xa54ff53a, 0x510e527f, 0x9b05688c, 0x1f83d9ab, 0x5be0cd19]"

text \<open>The message length in bits, as eight bytes, most significant first.\<close>

definition be64 :: "nat \<Rightarrow> byte list" where
  "be64 n = (let w = (of_nat n :: 64 word)
             in map (\<lambda>i. ucast (drop_bit i w)) [56, 48, 40, 32, 24, 16, 8, 0])"

text \<open>Padding: the byte 0x80, zero bytes up to 56 modulo 64, then the length.\<close>

definition sha256_pad :: "byte list \<Rightarrow> byte list" where
  "sha256_pad m =
     m @ [0x80] @ replicate ((119 - length m mod 64) mod 64) 0 @ be64 (8 * length m)"

fun be_words :: "byte list \<Rightarrow> u32 list" where
  "be_words (a # b # c # d # bs) =
     (push_bit 24 (ucast a) OR push_bit 16 (ucast b) OR push_bit 8 (ucast c) OR ucast d)
       # be_words bs"
| "be_words _ = []"

text \<open>Message blocks of sixteen words.\<close>

fun chunks :: "u32 list \<Rightarrow> u32 list list" where
  "chunks [] = []"
| "chunks (x # xs) = take 16 (x # xs) # chunks (drop 16 (x # xs))"

text \<open>
  The message schedule is built newest word first, so that the head of the list is
  \<open>W[t-1]\<close> and \<open>W[t-2]\<close>, \<open>W[t-7]\<close>, \<open>W[t-15]\<close>, \<open>W[t-16]\<close> sit at positions 1, 6, 14, 15.
\<close>

definition sched_step :: "u32 list \<Rightarrow> u32 list" where
  "sched_step w = (ssig1 (w ! 1) + w ! 6 + ssig0 (w ! 14) + w ! 15) # w"

definition schedule :: "u32 list \<Rightarrow> u32 list" where
  "schedule blk = rev (fold (\<lambda>_. sched_step) [16..<64] (rev blk))"

fun round256 :: "u32 \<times> u32 \<Rightarrow> u32 list \<Rightarrow> u32 list" where
  "round256 (k, w) [a, b, c, d, e, f, g, h] =
     (let t1 = h + bsig1 e + Ch e f g + k + w;
          t2 = bsig0 a + Maj a b c
      in [t1 + t2, a, b, c, d + t1, e, f, g])"
| "round256 _ s = s"

definition compress :: "u32 list \<Rightarrow> u32 list \<Rightarrow> u32 list" where
  "compress blk hs = map2 (+) hs (fold round256 (zip sha256_K (schedule blk)) hs)"

definition word_bytes :: "u32 \<Rightarrow> byte list" where
  "word_bytes w = [ucast (drop_bit 24 w), ucast (drop_bit 16 w), ucast (drop_bit 8 w), ucast w]"

definition sha256 :: "byte list \<Rightarrow> byte list" where
  "sha256 m =
     concat (map word_bytes (fold compress (chunks (be_words (sha256_pad m))) sha256_H0))"

text \<open>\<^verbatim>\<open>.hexdigest()\<close>: two lower-case hexadecimal digits for each byte.\<close>

definition hex_digit :: "nat \<Rightarrow> char" where
  "hex_digit n = ''0123456789abcdef'' ! n"

definition hexdigest :: "byte list \<Rightarrow> string" where
  "hexdigest bs = concat (map (\<lambda>b. [hex_digit (unat b div 16), hex_digit (unat b mod 16)]) bs)"

subsection \<open>Python text: str of an int, str.encode\<close>

text \<open>
  A Python \<^verbatim>\<open>str\<close> is modelled as a \<^typ>\<open>string\<close>, one \<^typ>\<open>char\<close> for each code point
  below 256. \<^verbatim>\<open>f'{n}'\<close> of an int is its decimal text with a minus sign when negative;
  \<^verbatim>\<open>.encode()\<close> is UTF-8, one byte below 128 and two bytes from 128 on.
\<close>

fun str_nat :: "nat \<Rightarrow> string" where
  "str_nat n = (if n < 10 then [char_of (48 + n)]
                else str_nat (n div 10) @ [char_of (48 + n mod 10)])"

declare str_nat.simps [simp del]

definition str_int :: "int \<Rightarrow> string" where
  "str_int i = (if i < 0 then CHR ''-'' # str_nat (nat (- i)) else str_nat (nat i))"

definition encode :: "string \<Rightarrow> byte list" where
  "encode s = concat (map (\<lambda>c. let n = (of_char c :: nat)
                                 in if n < 128 then [of_nat n]
                                    else [of_nat (192 + n div 64), of_nat (128 + n mod 64)]) s)"

subsection \<open>Exceptions\<close>

text \<open>
  The exceptions the class can raise: a missing dict key, an index into an empty list,
  and the two that come out of the library calls, an int too long to be written in
  decimal and a value nested too deeply to be encoded.
\<close>

datatype error = KeyError string | IndexError | ValueError | RecursionError

text \<open>
  CPython (3.11 and later) refuses to write an int in decimal when the text would have
  more than \<^verbatim>\<open>sys.int_max_str_digits\<close> digits, 4300 unless it is reconfigured: \<^verbatim>\<open>str\<close>,
  \<^verbatim>\<open>repr\<close> and \<^verbatim>\<open>format\<close> then raise ValueError. The sign is not counted.
\<close>

definition int_max_str_digits :: nat where
  "int_max_str_digits = 4300"

definition repr_int :: "int \<Rightarrow> error + string" where
  "repr_int i =
     (if int_max_str_digits < length (str_nat (nat \<bar>i\<bar>)) then Inl ValueError
      else Inr (str_int i))"

text \<open>The results of a sequence of calls: the first exception raised, or all the values.\<close>

fun collect :: "(error + 'a) list \<Rightarrow> error + 'a list" where
  "collect [] = Inr []"
| "collect (Inl e # rs) = Inl e"
| "collect (Inr x # rs) = (case collect rs of Inl e \<Rightarrow> Inl e | Inr xs \<Rightarrow> Inr (x # xs))"

subsection \<open>json.dumps with sort_keys=True\<close>

text \<open>
  The values a block can hold are the values of JSON, which is what the HTTP layer hands
  to \<^verbatim>\<open>new_data\<close>. A Python \<^verbatim>\<open>dict\<close> is a list of key-value pairs in insertion order; a
  \<^verbatim>\<open>float\<close> is the 64 bits of its IEEE-754 double.
\<close>

datatype json =
    JNull
  | JBool bool
  | JInt int
  | JFloat "64 word"
  | JStr string
  | JList "json list"
  | JObj "(string \<times> json) list"

text \<open>
  The encoder's string escape with \<^verbatim>\<open>ensure_ascii\<close> (the default): backslash, the double
  quote and the five short control escapes, every other character outside space..tilde
  as \<^verbatim>\<open>\u00xx\<close>.
\<close>

definition escape_char :: "char \<Rightarrow> string" where
  "escape_char c =
     (let n = (of_char c :: nat) in
      if n = 0x5C then [CHR 0x5C, CHR 0x5C]
      else if n = 0x22 then [CHR 0x5C, CHR 0x22]
      else if n = 0x08 then [CHR 0x5C, CHR ''b'']
      else if n = 0x0C then [CHR 0x5C, CHR ''f'']
      else if n = 0x0A then [CHR 0x5C, CHR ''n'']
      else if n = 0x0D then [CHR 0x5C, CHR ''r'']
      else if n = 0x09 then [CHR 0x5C, CHR ''t'']
      else if 0x20 \<le> n \<and> n \<le> 0x7E then [c]
      else [CHR 0x5C, CHR ''u'', CHR ''0'', CHR ''0'', hex_digit (n div 16), hex_digit (n mod 16)])"

definition encode_string :: "string \<Rightarrow> string" where
  "encode_string s = [CHR 0x22] @ concat (map escape_char s) @ [CHR 0x22]"

text \<open>\<^verbatim>\<open>sep.join(parts)\<close>.\<close>

fun join :: "string \<Rightarrow> string list \<Rightarrow> string" where
  "join sep [] = []"
| "join sep [x] = x"
| "join sep (x # y # ys) = x @ sep @ join sep (y # ys)"

text \<open>
  \<^verbatim>\<open>json.dumps(v, sort_keys=True)\<close> with the default separators. With \<^verbatim>\<open>sort_keys\<close> the
  encoder sorts the items of every dict by key before it writes them, and it writes the
  items in that order, so the first value that cannot be written decides the exception.
  The text of a float is the one the encoder gives it (\<^verbatim>\<open>float.__repr__\<close> for a finite
  float), a function of the double which is taken as the parameter \<open>fr\<close>. An int is
  written by \<^verbatim>\<open>int.__repr__\<close>, which can raise ValueError. The encoder enters one level of
  recursion for every list and dict, also an empty one, and raises RecursionError when
  the interpreter's limit is reached; \<open>d\<close> is the number of levels it can still enter.
\<close>

function dumps :: "(64 word \<Rightarrow> string) \<Rightarrow> nat \<Rightarrow> json \<Rightarrow> error + string" where
  "dumps fr d JNull = Inr ''null''"
| "dumps fr d (JBool b) = Inr (if b then ''true'' else ''false'')"
| "dumps fr d (JInt i) = repr_int i"
| "dumps fr d (JFloat x) = Inr (fr x)"
| "dumps fr d (JStr s) = Inr (encode_string s)"
| "dumps fr d (JList vs) =
     (if d = 0 then Inl RecursionError
      else case collect (map (dumps fr (d - 1)) vs) of
             Inl e \<Rightarrow> Inl e
           | Inr ts \<Rightarrow> Inr (''['' @ join '', '' ts @ '']''))"
| "dumps fr d (JObj kvs) =
     (if d = 0 then Inl RecursionError
      else case collect (map (\<lambda>kv. case dumps fr (d - 1) (snd kv) of
                                      Inl e \<Rightarrow> Inl e
                                    | Inr t \<Rightarrow> Inr (encode_string (fst kv) @ '': '' @ t))
                              (sort_key fst kvs)) of
             Inl e \<Rightarrow> Inl e
           | Inr ts \<Rightarrow> Inr (''{'' @ join '', '' ts @ ''}''))"
  by pat_completeness auto
termination
proof (relation "measure (\<lambda>p. size (snd (snd p)))", goal_cases)
  case 1
  show ?case by simp
next
  case (2 fr d vs x)
  then have "x \<in> set vs" by simp
  then have "size x < size (JList vs)"
    by (induction vs) auto
  then show ?case by simp
next
  case (3 fr d kvs kv)
  then have "kv \<in> set kvs" by simp
  then have "size (snd kv) < size (JObj kvs)"
    by (induction kvs) auto
  then show ?case by simp
qed

section \<open>The ledger: class Blockchain\<close>

text \<open>
  A block is the dict that \<^verbatim>\<open>new_block\<close> builds, with its five fields. A record of the
  pending pool is the dict that \<^verbatim>\<open>new_data\<close> builds, kept as its items in insertion order.
\<close>

type_synonym session_record = "(string \<times> json) list"

record block =
  index :: int
  timestamp :: "64 word"
  data :: "session_record list"
  "proof" :: int
  previous_hash :: string

record ledger =
  chain :: "block list"
  current_data :: "session_record list"

text \<open>The dict literal of \<^verbatim>\<open>new_block\<close>, its keys in the order they are written.\<close>

definition block_dict :: "block \<Rightarrow> json" where
  "block_dict b =
     JObj [(''index'', JInt (index b)),
           (''timestamp'', JFloat (timestamp b)),
           (''data'', JList (map JObj (data b))),
           (''proof'', JInt (proof b)),
           (''previous_hash'', JStr (previous_hash b))]"

text \<open>
  \<^verbatim>\<open>hash(block)\<close>:
  \<^verbatim>\<open>hashlib.sha256(json.dumps(block, sort_keys=True).encode()).hexdigest()\<close>. It raises
  what \<^verbatim>\<open>json.dumps\<close> raises; the text that \<^verbatim>\<open>json.dumps\<close> returns is ASCII, so
  \<^verbatim>\<open>.encode()\<close> does not raise. \<open>lim\<close> is the number of levels of recursion that the
  interpreter leaves to the encoder.
\<close>

definition hash :: "(64 word \<Rightarrow> string) \<Rightarrow> nat \<Rightarrow> json \<Rightarrow> error + string" where
  "hash fr lim blk =
     (case dumps fr lim blk of
        Inl e \<Rightarrow> Inl e
      | Inr t \<Rightarrow> Inr (hexdigest (sha256 (encode t))))"

text \<open>\<^verbatim>\<open>self.chain[-1]\<close>, which raises IndexError on an empty chain.\<close>

definition last_block :: "ledger \<Rightarrow> error + block" where
  "last_block s = (case chain s of [] \<Rightarrow> Inl IndexError | _ # _ \<Rightarrow> Inr (last (chain s)))"

text \<open>
  \<^verbatim>\<open>new_block(proof, previous_hash=None)\<close>. The clock reading \<^verbatim>\<open>time()\<close> is the input
  \<open>now\<close>. \<^verbatim>\<open>previous_hash or self.hash(self.chain[-1])\<close> takes the argument when it is a
  non-empty string and hashes the last block otherwise; when \<^verbatim>\<open>self.chain[-1]\<close> or the
  hashing raises, nothing has been assigned yet. Every operation returns the ledger it
  leaves behind together with its result or its exception.
\<close>

definition new_block ::
  "(64 word \<Rightarrow> string) \<Rightarrow> nat \<Rightarrow> ledger \<Rightarrow> int \<Rightarrow> string option \<Rightarrow> 64 word
     \<Rightarrow> ledger \<times> (error + block)"
where
  "new_block fr lim s p prev now =
     (case (case prev of
              Some h \<Rightarrow> if h \<noteq> [] then Inr h
                        else (case last_block s of
                                Inl e \<Rightarrow> Inl e
                              | Inr b \<Rightarrow> hash fr lim (block_dict b))
            | None \<Rightarrow> (case last_block s of
                         Inl e \<Rightarrow> Inl e
                       | Inr b \<Rightarrow> hash fr lim (block_dict b)))
      of Inl e \<Rightarrow> (s, Inl e)
       | Inr ph \<Rightarrow>
           let blk = \<lparr>index = int (length (chain s)) + 1,
                      timestamp = now,
                      data = current_data s,
                      proof = p,
                      previous_hash = ph\<rparr>
           in (s\<lparr>current_data := [], chain := chain s @ [blk]\<rparr>, Inr blk))"

text \<open>\<^verbatim>\<open>session_data[k]\<close> raises KeyError; \<^verbatim>\<open>session_data.get(k, d)\<close> falls back to \<open>d\<close>.\<close>

definition getitem :: "(string \<rightharpoonup> json) \<Rightarrow> string \<Rightarrow> error + json" where
  "getitem sd k = (case sd k of None \<Rightarrow> Inl (KeyError k) | Some v \<Rightarrow> Inr v)"

definition get_default :: "(string \<rightharpoonup> json) \<Rightarrow> string \<Rightarrow> json \<Rightarrow> json" where
  "get_default sd k d = (case sd k of None \<Rightarrow> d | Some v \<Rightarrow> v)"

text \<open>
  The dict literal of \<^verbatim>\<open>new_data\<close>. Python evaluates its values from top to bottom, so
  the first subscript whose key is missing raises and the dict is never built.
\<close>

definition make_record :: "(string \<rightharpoonup> json) \<Rightarrow> error + session_record" where
  "make_record sd =
     (case getitem sd ''users'' of Inl e \<Rightarrow> Inl e | Inr users \<Rightarrow>
     (case getitem sd ''dh_parameters'' of Inl e \<Rightarrow> Inl e | Inr dh \<Rightarrow>
     (case getitem sd ''server_public_key'' of Inl e \<Rightarrow> Inl e | Inr server \<Rightarrow>
     (case getitem sd ''receiver_public_key'' of Inl e \<Rightarrow> Inl e | Inr receiver \<Rightarrow>
     (case getitem sd ''sender_public_key'' of Inl e \<Rightarrow> Inl e | Inr sender \<Rightarrow>
      Inr [(''users'', users),
           (''data'', get_default sd ''data'' (JList [])),
           (''dh_parameters'', dh),
           (''server_public_key'', server),
           (''receiver_public_key'', receiver),
           (''sender_public_key'', sender),
           (''sender_zkp_status'', get_default sd ''sender_zkp_status'' (JStr ''Pending'')),
           (''receiver_zkp_status'', get_default sd ''receiver_zkp_status'' (JStr ''Pending'')),
           (''sender_balance'', get_default sd ''sender_balance'' (JInt 0)),
           (''receiver_balance'', get_default sd ''receiver_balance'' (JInt 0)),
           (''authentification'', get_default sd ''authentification'' (JStr ''Pending'')),
           (''Sufficient_amount'', get_default sd ''Sufficient_amount'' (JStr ''Pending'')),
           (''sender_wallet_hash'', get_default sd ''sender_wallet_hash'' (JStr [])),
           (''receiver_wallet_hash'', get_default sd ''receiver_wallet_hash'' (JStr []))])))))"

text \<open>
  \<^verbatim>\<open>new_data(session_data)\<close>: the record is appended first, then
  \<^verbatim>\<open>self.last_block['index'] + 1\<close> is returned; if the chain were empty the IndexError
  would come after the append.
\<close>

definition new_data :: "ledger \<Rightarrow> (string \<rightharpoonup> json) \<Rightarrow> ledger \<times> (error + int)" where
  "new_data s sd =
     (case make_record sd of
        Inl e \<Rightarrow> (s, Inl e)
      | Inr r \<Rightarrow>
          let s' = s\<lparr>current_data := current_data s @ [r]\<rparr>
          in (case last_block s' of
                Inl e \<Rightarrow> (s', Inl e)
              | Inr b \<Rightarrow> (s', Inr (index b + 1))))"

text \<open>
  \<^verbatim>\<open>__init__\<close>: both lists empty, then the genesis block
  \<^verbatim>\<open>self.new_block(previous_hash='1', proof=100)\<close>.
\<close>

definition init :: "(64 word \<Rightarrow> string) \<Rightarrow> nat \<Rightarrow> 64 word \<Rightarrow> ledger" where
  "init fr lim now =
     fst (new_block fr lim \<lparr>chain = [], current_data = []\<rparr> 100 (Some ''1'') now)"

text \<open>
  \<^verbatim>\<open>valid_proof(last_proof, proof)\<close>: the f-string writes the two ints in decimal, which
  raises ValueError for an int that is too long; then the first four characters of the
  hexadecimal digest of \<^verbatim>\<open>f'{last_proof}{proof}'.encode()\<close> are compared with
  \<^verbatim>\<open>"0000"\<close>.
\<close>

definition valid_proof :: "int \<Rightarrow> int \<Rightarrow> error + bool" where
  "valid_proof last_proof p =
     (case repr_int last_proof of
        Inl e \<Rightarrow> Inl e
      | Inr a \<Rightarrow>
          (case repr_int p of
             Inl e \<Rightarrow> Inl e
           | Inr b \<Rightarrow> Inr (take 4 (hexdigest (sha256 (encode (a @ b)))) = ''0000'')))"

text \<open>
  \<^verbatim>\<open>proof_of_authority(last_proof)\<close>: the loop starts at 0 and adds 1 while
  \<^verbatim>\<open>valid_proof\<close> is False; an exception of \<^verbatim>\<open>valid_proof\<close> ends it. The loop has no
  bound of its own, so the model is a partial function: \<open>None\<close> is the loop that never
  ends.
\<close>

partial_function (option) poa_loop :: "int \<Rightarrow> int \<Rightarrow> (error + int) option" where
  "poa_loop last_proof p =
     (case valid_proof last_proof p of
        Inl e \<Rightarrow> Some (Inl e)
      | Inr ok \<Rightarrow> if ok then Some (Inr p) else poa_loop last_proof (p + 1))"

definition proof_of_authority :: "int \<Rightarrow> (error + int) option" where
  "proof_of_authority last_proof = poa_loop last_proof 0"

text \<open>
  The states of a ledger: the constructed one, then any sequence of record submissions
  and of sealings with only a proof, whether they return or raise.
\<close>

inductive reachable :: "(64 word \<Rightarrow> string) \<Rightarrow> nat \<Rightarrow> ledger \<Rightarrow> bool" for fr lim where
  constructed: "reachable fr lim (init fr lim now)"
| submitted: "reachable fr lim s \<Longrightarrow> reachable fr lim (fst (new_data s sd))"
| sealed: "reachable fr lim s \<Longrightarrow> reachable fr lim (fst (new_block fr lim s p None now))"

section \<open>What the specification says, for comparison\<close>

text \<open>
  The record schema of the data model: five required identity fields, and nine optional
  fields each with its default.
\<close>

definition required_fields :: "string list" where
  "required_fields =
     [''users'', ''dh_parameters'', ''server_public_key'', ''receiver_public_key'',
      ''sender_public_key'']"

definition optional_defaults :: "(string \<times> json) list" where
  "optional_defaults =
     [(''data'', JList []),
      (''sender_zkp_status'', JStr ''Pending''),
      (''receiver_zkp_status'', JStr ''Pending''),
      (''authentification'', JStr ''Pending''),
      (''Sufficient_amount'', JStr ''Pending''),
      (''sender_balance'', JInt 0),
      (''receiver_balance'', JInt 0),
      (''sender_wallet_hash'', JStr []),
      (''receiver_wallet_hash'', JStr [])]"

definition schema_fields :: "string list" where
  "schema_fields = required_fields @ map fst optional_defaults"


text \<open>
  Identical field values: two values are the same when they are equal, except that the
  order in which a dict holds its keys does not count. Both dicts hold each key once,
  they have the same number of keys, and every key of the first has the same value in
  the second; lists are the same element by element, in order.
\<close>

function same_value :: "json \<Rightarrow> json \<Rightarrow> bool" where
  "same_value (JList xs) b =
     (case b of
        JList ys \<Rightarrow> length xs = length ys \<and> list_all (\<lambda>xy. same_value (fst xy) (snd xy)) (zip xs ys)
      | _ \<Rightarrow> False)"
| "same_value (JObj xs) b =
     (case b of
        JObj ys \<Rightarrow>
          distinct (map fst xs) \<and> distinct (map fst ys) \<and> length xs = length ys \<and>
          list_all (\<lambda>kv. case map_of ys (fst kv) of
                            None \<Rightarrow> False
                          | Some v' \<Rightarrow> same_value (snd kv) v') xs
      | _ \<Rightarrow> False)"
| "same_value JNull b = (b = JNull)"
| "same_value (JBool x) b = (b = JBool x)"
| "same_value (JInt i) b = (b = JInt i)"
| "same_value (JFloat x) b = (b = JFloat x)"
| "same_value (JStr s) b = (b = JStr s)"
  by pat_completeness auto
termination
proof (relation "measure (\<lambda>p. size (fst p))", goal_cases)
  case 1
  show ?case by simp
next
  case (2 xs b ys xy)
  have "fst xy \<in> set xs"
    using 2 set_zip_leftD [of "fst xy" "snd xy" xs ys] by simp
  then have "size (fst xy) < size (JList xs)"
    by (induction xs) auto
  then show ?case by simp
next
  case (3 xs b ys kv v')
  have "kv \<in> set xs" using 3 by simp
  then have "size (snd kv) < size (JObj xs)"
    by (induction xs) auto
  then show ?case by simp
qed

section \<open>Properties of the ledger\<close>

subsection \<open>Basic facts\<close>

lemma last_block_nonempty: "chain s \<noteq> [] \<Longrightarrow> last_block s = Inr (last (chain s))"
  by (cases "chain s") (simp_all add: last_block_def)

lemma new_block_hashed:
  "chain s \<noteq> [] \<Longrightarrow> hash fr lim (block_dict (last (chain s))) = Inr h \<Longrightarrow>
   new_block fr lim s p None now =
     (s\<lparr>current_data := [],
        chain := chain s @ [\<lparr>index = int (length (chain s)) + 1, timestamp = now,
                             data = current_data s, proof = p, previous_hash = h\<rparr>]\<rparr>,
      Inr \<lparr>index = int (length (chain s)) + 1, timestamp = now,
           data = current_data s, proof = p, previous_hash = h\<rparr>)"
  by (simp add: new_block_def last_block_nonempty Let_def)

lemma new_block_raises:
  "chain s \<noteq> [] \<Longrightarrow> hash fr lim (block_dict (last (chain s))) = Inl e \<Longrightarrow>
   new_block fr lim s p None now = (s, Inl e)"
  by (simp add: new_block_def last_block_nonempty)

lemma init_eq:
  "init fr lim now =
     \<lparr>chain = [\<lparr>index = 1, timestamp = now, data = [], proof = 100, previous_hash = ''1''\<rparr>],
      current_data = []\<rparr>"
  by (simp add: init_def new_block_def Let_def)

lemma chain_new_data: "chain (fst (new_data s sd)) = chain s"
  by (simp add: new_data_def Let_def split: sum.splits)

text \<open>The genesis block can be hashed as soon as the encoder may enter two levels.\<close>

lemma hash_genesis:
  "\<exists>h. hash fr (Suc (Suc n))
          (block_dict \<lparr>index = 1, timestamp = now, data = [], proof = 100,
                       previous_hash = ''1''\<rparr>) = Inr h"
  by (simp add: hash_def block_dict_def repr_int_def int_max_str_digits_def str_nat.simps
                str_int_def)

lemma reachable_nonempty: "reachable fr lim s \<Longrightarrow> chain s \<noteq> []"
proof (induction rule: reachable.induct)
  case (constructed now)
  show ?case by (simp add: init_eq)
next
  case (submitted s sd)
  then show ?case by (simp add: chain_new_data)
next
  case (sealed s p now)
  then show ?case
    by (cases "hash fr lim (block_dict (last (chain s)))")
       (simp_all add: new_block_hashed new_block_raises)
qed

lemma reachable_genesis:
  "reachable fr lim s \<Longrightarrow> index (chain s ! 0) = 1 \<and> previous_hash (chain s ! 0) = ''1''"
proof (induction rule: reachable.induct)
  case (constructed now)
  show ?case by (simp add: init_eq)
next
  case (submitted s sd)
  then show ?case by (simp add: chain_new_data)
next
  case (sealed s p now)
  then show ?case
    using reachable_nonempty [OF sealed.hyps]
    by (cases "hash fr lim (block_dict (last (chain s)))")
       (simp_all add: new_block_hashed new_block_raises nth_append)
qed



subsection \<open>The chain of hashes\<close>

text \<open>
  C1. In every state that is reached from construction by submissions of records and by
  sealings with only a proof, every block after the first holds, as its
  \<^verbatim>\<open>previous_hash\<close>, the hash of the block just before it: hashing that block returns,
  and returns this value.
\<close>

theorem chain_link:
  "reachable fr lim s \<Longrightarrow> 0 < i \<Longrightarrow> i < length (chain s) \<Longrightarrow>
   hash fr lim (block_dict (chain s ! (i - 1))) = Inr (previous_hash (chain s ! i))"
proof (induction arbitrary: i rule: reachable.induct)
  case (constructed now)
  then show ?case by (simp add: init_eq)
next
  case (submitted s sd)
  then show ?case by (simp add: chain_new_data)
next
  case (sealed s p now)
  have ne: "chain s \<noteq> []" by (rule reachable_nonempty [OF sealed.hyps])
  show ?case
  proof (cases "hash fr lim (block_dict (last (chain s)))")
    case (Inl e)
    then show ?thesis
      using sealed.IH [of i] sealed.prems ne by (simp add: new_block_raises)
  next
    case (Inr h)
    show ?thesis
    proof (cases "i < length (chain s)")
      case True
      moreover from True have "i - 1 < length (chain s)" by simp
      ultimately show ?thesis
        using sealed.IH [of i] sealed.prems(1) ne Inr
        by (simp add: new_block_hashed nth_append)
    next
      case False
      then have "i = length (chain s)"
        using sealed.prems ne Inr by (simp add: new_block_hashed)
      then show ?thesis
        using ne Inr by (simp add: new_block_hashed nth_append last_conv_nth)
    qed
  qed
qed

text \<open>The ledger sealed once after construction: its second block links to the genesis block.\<close>

theorem chain_link_witness:
  "reachable (\<lambda>_. ''0.0'') 1000
     (fst (new_block (\<lambda>_. ''0.0'') 1000 (init (\<lambda>_. ''0.0'') 1000 0) 7 None 0)) \<and>
   length (chain (fst (new_block (\<lambda>_. ''0.0'') 1000 (init (\<lambda>_. ''0.0'') 1000 0) 7 None 0))) = 2 \<and>
   hash (\<lambda>_. ''0.0'') 1000
       (block_dict \<lparr>index = 1, timestamp = 0, data = [], proof = 100, previous_hash = ''1''\<rparr>) =
     Inr (previous_hash
            (chain (fst (new_block (\<lambda>_. ''0.0'') 1000 (init (\<lambda>_. ''0.0'') 1000 0) 7 None 0)) ! 1))"
proof -
  obtain h where h: "hash (\<lambda>_. ''0.0'') 1000
       (block_dict \<lparr>index = 1, timestamp = 0, data = [], proof = 100, previous_hash = ''1''\<rparr>) =
       Inr h"
    using hash_genesis [of "\<lambda>_. ''0.0''" 998 0] by auto
  show ?thesis
    using chain_link [of "\<lambda>_. ''0.0''" 1000
        "fst (new_block (\<lambda>_. ''0.0'') 1000 (init (\<lambda>_. ''0.0'') 1000 0) 7 None 0)" 1]
      reachable.sealed [OF reachable.constructed, of "\<lambda>_. ''0.0''" 1000 0 7 0] h
    by (simp add: init_eq new_block_hashed)
qed

subsection \<open>The genesis block\<close>

text \<open>
  C8. A constructed ledger has a non-empty chain whose first block has index 1 and the
  sentinel \<^verbatim>\<open>'1'\<close> as \<^verbatim>\<open>previous_hash\<close>. In every reachable state the chain is non-empty
  and still starts with that block, and \<^verbatim>\<open>last_block\<close> returns the last block instead of
  raising.
\<close>

theorem genesis_present:
  "chain (init fr lim now) \<noteq> [] \<and>
   index (chain (init fr lim now) ! 0) = 1 \<and>
   previous_hash (chain (init fr lim now) ! 0) = ''1'' \<and>
   (reachable fr lim s \<longrightarrow>
      chain s \<noteq> [] \<and> index (chain s ! 0) = 1 \<and> previous_hash (chain s ! 0) = ''1'' \<and>
      last_block s = Inr (last (chain s)))"
  using reachable_nonempty [of fr lim s] reachable_genesis [of fr lim s]
  by (auto simp: init_eq last_block_nonempty)

text \<open>The ledger after one sealing: two blocks, the first one still the genesis block.\<close>

theorem genesis_present_witness:
  "reachable (\<lambda>_. ''0.0'') 1000
     (fst (new_block (\<lambda>_. ''0.0'') 1000 (init (\<lambda>_. ''0.0'') 1000 0) 7 None 5)) \<and>
   length (chain (fst (new_block (\<lambda>_. ''0.0'') 1000 (init (\<lambda>_. ''0.0'') 1000 0) 7 None 5))) = 2 \<and>
   index (chain (fst (new_block (\<lambda>_. ''0.0'') 1000 (init (\<lambda>_. ''0.0'') 1000 0) 7 None 5)) ! 0) = 1 \<and>
   previous_hash
     (chain (fst (new_block (\<lambda>_. ''0.0'') 1000 (init (\<lambda>_. ''0.0'') 1000 0) 7 None 5)) ! 0) = ''1'' \<and>
   last_block (fst (new_block (\<lambda>_. ''0.0'') 1000 (init (\<lambda>_. ''0.0'') 1000 0) 7 None 5)) =
     Inr (last (chain (fst (new_block (\<lambda>_. ''0.0'') 1000 (init (\<lambda>_. ''0.0'') 1000 0) 7 None 5))))"
proof -
  obtain h where h: "hash (\<lambda>_. ''0.0'') 1000
       (block_dict \<lparr>index = 1, timestamp = 0, data = [], proof = 100, previous_hash = ''1''\<rparr>) =
       Inr h"
    using hash_genesis [of "\<lambda>_. ''0.0''" 998 0] by auto
  show ?thesis
    using genesis_present [of "\<lambda>_. ''0.0''" 1000 0
        "fst (new_block (\<lambda>_. ''0.0'') 1000 (init (\<lambda>_. ''0.0'') 1000 0) 7 None 5)"]
      reachable.sealed [OF reachable.constructed, of "\<lambda>_. ''0.0''" 1000 0 7 5] h
    by (simp add: init_eq new_block_hashed)
qed

subsection \<open>The length of decimal text\<close>

lemma str_nat_nonempty: "0 < length (str_nat n)"
  by (subst str_nat.simps) simp

lemma str_nat_length_ge: "10 ^ k \<le> n \<Longrightarrow> k < length (str_nat n)"
proof (induction k arbitrary: n)
  case 0
  show ?case by (rule str_nat_nonempty)
next
  case (Suc k)
  then have "10 ^ k \<le> n div 10" by simp
  then have "k < length (str_nat (n div 10))" by (rule Suc.IH)
  moreover have "\<not> n < 10"
  proof
    assume "n < 10"
    moreover have "(10::nat) \<le> 10 ^ Suc k" by simp
    ultimately show False using Suc.prems by linarith
  qed
  ultimately show ?case by (subst str_nat.simps) simp
qed

lemma str_nat_length_mono: "m \<le> n \<Longrightarrow> length (str_nat m) \<le> length (str_nat n)"
proof (induction n arbitrary: m rule: str_nat.induct)
  case (1 n)
  show ?case
  proof (cases "n < 10")
    case True
    then have "m < 10" using "1.prems" by simp
    then show ?thesis using True by (simp add: str_nat.simps)
  next
    case False
    show ?thesis
    proof (cases "m < 10")
      case True
      then have "length (str_nat m) = 1" by (simp add: str_nat.simps)
      then show ?thesis by (cases "str_nat n") (use str_nat_nonempty [of n] in simp_all)
    next
      case m: False
      have "m div 10 \<le> n div 10" using "1.prems" by (rule div_le_mono)
      then have "length (str_nat (m div 10)) \<le> length (str_nat (n div 10))"
        using "1.IH" False by simp
      then show ?thesis
        using False m by (simp add: str_nat.simps [of m] str_nat.simps [of n])
    qed
  qed
qed

lemma nat_pow_le: "(10::int) ^ k \<le> \<bar>i\<bar> \<Longrightarrow> (10::nat) ^ k \<le> nat \<bar>i\<bar>"
proof -
  assume a: "(10::int) ^ k \<le> \<bar>i\<bar>"
  have "int ((10::nat) ^ k) = 10 ^ k" by simp
  then have "int (10 ^ k) \<le> \<bar>i\<bar>" using a by (simp only:)
  then show ?thesis by (simp only: nat_le_iff [symmetric] nat_int)
qed

lemma repr_int_long: "10 ^ 4300 \<le> \<bar>i\<bar> \<Longrightarrow> repr_int i = Inl ValueError"
proof -
  assume "10 ^ 4300 \<le> \<bar>i\<bar>"
  then have "(10::nat) ^ 4300 \<le> nat \<bar>i\<bar>" by (rule nat_pow_le)
  then have "4300 < length (str_nat (nat \<bar>i\<bar>))" by (rule str_nat_length_ge)
  then show ?thesis by (simp only: repr_int_def int_max_str_digits_def if_True)
qed

lemma repr_int_pow: "repr_int (10 ^ 4300) = Inl ValueError"
proof (rule repr_int_long)
  have "(0::int) \<le> 10 ^ 4300" by (rule zero_le_power) simp
  then have "\<bar>(10::int) ^ 4300\<bar> = 10 ^ 4300" by (rule abs_of_nonneg)
  then show "(10::int) ^ 4300 \<le> \<bar>10 ^ 4300\<bar>" by (simp only: order_refl)
qed

lemma repr_int_1: "repr_int 1 = Inr (str_int 1)"
  by (simp add: repr_int_def int_max_str_digits_def str_nat.simps)

subsection \<open>Sealing\<close>

text \<open>
  C3, as it holds. On a non-empty chain, \<^verbatim>\<open>new_block\<close> with only a proof first hashes the
  last block. When the hashing returns, it builds the block whose index is the length of
  the chain plus one, whose data is the pending pool in its order, whose proof is the one
  given and whose \<^verbatim>\<open>previous_hash\<close> is that hash; it returns the block, appends it to the
  chain and leaves the pool empty. When the hashing raises, \<^verbatim>\<open>new_block\<close> raises the same
  exception and neither the chain nor the pool changes.
\<close>

theorem new_block_seals:
  assumes "chain s \<noteq> []"
  shows "new_block fr lim s p None now =
     (case hash fr lim (block_dict (last (chain s))) of
        Inl e \<Rightarrow> (s, Inl e)
      | Inr h \<Rightarrow>
          (\<lparr>chain = chain s @ [\<lparr>index = int (length (chain s)) + 1, timestamp = now,
                                 data = current_data s, proof = p, previous_hash = h\<rparr>],
            current_data = []\<rparr>,
           Inr \<lparr>index = int (length (chain s)) + 1, timestamp = now,
                data = current_data s, proof = p, previous_hash = h\<rparr>))"
  using assms
  by (cases "hash fr lim (block_dict (last (chain s)))")
     (simp_all add: new_block_hashed new_block_raises)

text \<open>A pool of two records is sealed into the second block, in the same order.\<close>

theorem new_block_seals_witness:
  "\<exists>h. hash (\<lambda>_. ''0.0'') 1000
          (block_dict \<lparr>index = 1, timestamp = 0, data = [], proof = 100,
                       previous_hash = ''1''\<rparr>) = Inr h \<and>
       new_block (\<lambda>_. ''0.0'') 1000
         \<lparr>chain = [\<lparr>index = 1, timestamp = 0, data = [], proof = 100, previous_hash = ''1''\<rparr>],
          current_data = [[(''users'', JInt 1)], [(''users'', JInt 2)]]\<rparr> 7 None 5 =
       (\<lparr>chain = [\<lparr>index = 1, timestamp = 0, data = [], proof = 100, previous_hash = ''1''\<rparr>,
                  \<lparr>index = 2, timestamp = 5,
                   data = [[(''users'', JInt 1)], [(''users'', JInt 2)]], proof = 7,
                   previous_hash = h\<rparr>],
         current_data = []\<rparr>,
        Inr \<lparr>index = 2, timestamp = 5,
             data = [[(''users'', JInt 1)], [(''users'', JInt 2)]], proof = 7,
             previous_hash = h\<rparr>)"
proof -
  obtain h where h: "hash (\<lambda>_. ''0.0'') 1000
       (block_dict \<lparr>index = 1, timestamp = 0, data = [], proof = 100, previous_hash = ''1''\<rparr>) =
       Inr h"
    using hash_genesis [of "\<lambda>_. ''0.0''" 998 0] by auto
  show ?thesis
    using new_block_seals [of
        "\<lparr>chain = [\<lparr>index = 1, timestamp = 0, data = [], proof = 100, previous_hash = ''1''\<rparr>],
          current_data = [[(''users'', JInt 1)], [(''users'', JInt 2)]]\<rparr>"
        "\<lambda>_. ''0.0''" 1000 7 5] h
    by simp
qed

text \<open>
  The claim as the specification states it, success on every non-empty chain, fails on a
  chain whose last block holds a proof of 4301 digits: that block cannot be hashed, and
  the sealing raises ValueError with the pool as it was.
\<close>

theorem new_block_long_proof:
  "new_block (\<lambda>_. ''0.0'') 1000
     \<lparr>chain = [\<lparr>index = 1, timestamp = 0, data = [], proof = 10 ^ 4300,
                 previous_hash = ''1''\<rparr>],
      current_data = [[(''users'', JInt 1)]]\<rparr> 7 None 5 =
   (\<lparr>chain = [\<lparr>index = 1, timestamp = 0, data = [], proof = 10 ^ 4300,
                 previous_hash = ''1''\<rparr>],
      current_data = [[(''users'', JInt 1)]]\<rparr>,
    Inl ValueError)"
proof -
  have "hash (\<lambda>_. ''0.0'') 1000
          (block_dict \<lparr>index = 1, timestamp = 0, data = [], proof = 10 ^ 4300,
                       previous_hash = ''1''\<rparr>) = Inl ValueError"
    by (simp add: hash_def block_dict_def repr_int_pow repr_int_1 del: power_numeral)
  then show ?thesis
    by (simp add: new_block_def last_block_def del: power_numeral)
qed

subsection \<open>Submitting a record\<close>


lemma make_record_present:
  assumes "\<forall>k \<in> set required_fields. sd k \<noteq> None"
  shows "make_record sd =
     Inr [(''users'', the (sd ''users'')),
          (''data'', get_default sd ''data'' (JList [])),
          (''dh_parameters'', the (sd ''dh_parameters'')),
          (''server_public_key'', the (sd ''server_public_key'')),
          (''receiver_public_key'', the (sd ''receiver_public_key'')),
          (''sender_public_key'', the (sd ''sender_public_key'')),
          (''sender_zkp_status'', get_default sd ''sender_zkp_status'' (JStr ''Pending'')),
          (''receiver_zkp_status'', get_default sd ''receiver_zkp_status'' (JStr ''Pending'')),
          (''sender_balance'', get_default sd ''sender_balance'' (JInt 0)),
          (''receiver_balance'', get_default sd ''receiver_balance'' (JInt 0)),
          (''authentification'', get_default sd ''authentification'' (JStr ''Pending'')),
          (''Sufficient_amount'', get_default sd ''Sufficient_amount'' (JStr ''Pending'')),
          (''sender_wallet_hash'', get_default sd ''sender_wallet_hash'' (JStr [])),
          (''receiver_wallet_hash'', get_default sd ''receiver_wallet_hash'' (JStr []))]"
  using assms
  by (auto simp: make_record_def getitem_def required_fields_def split: option.splits)

lemma make_record_keys:
  assumes "make_record sd = Inr r"
  shows "map fst r =
     [''users'', ''data'', ''dh_parameters'', ''server_public_key'', ''receiver_public_key'',
      ''sender_public_key'', ''sender_zkp_status'', ''receiver_zkp_status'', ''sender_balance'',
      ''receiver_balance'', ''authentification'', ''Sufficient_amount'', ''sender_wallet_hash'',
      ''receiver_wallet_hash'']"
  using assms
  by (auto simp: make_record_def getitem_def split: option.splits sum.splits)

lemma schema_fields_eq:
  "set schema_fields =
     set [''users'', ''data'', ''dh_parameters'', ''server_public_key'', ''receiver_public_key'',
      ''sender_public_key'', ''sender_zkp_status'', ''receiver_zkp_status'', ''sender_balance'',
      ''receiver_balance'', ''authentification'', ''Sufficient_amount'', ''sender_wallet_hash'',
      ''receiver_wallet_hash'']"
  by (auto simp: schema_fields_def required_fields_def optional_defaults_def)






text \<open>
  C10. When all the required fields are present, the record that \<^verbatim>\<open>new_data\<close> stores has
  fourteen items whose keys are, each once, the fourteen fields of the schema; a key of
  the submitted dict that is not in the schema is in no stored record. A sealing that
  follows and returns puts the pool, with this record at its end, into the data of the
  block as it is.
\<close>

theorem stored_record_schema:
  assumes "chain s \<noteq> []"
    and "\<forall>k \<in> set required_fields. sd k \<noteq> None"
  shows "\<exists>r. current_data (fst (new_data s sd)) = current_data s @ [r] \<and>
             distinct (map fst r) \<and> length r = 14 \<and>
             set (map fst r) = set schema_fields \<and>
             (\<forall>b. snd (new_block fr lim (fst (new_data s sd)) p None now) = Inr b \<longrightarrow>
                  data b = current_data s @ [r])"
proof -
  obtain r where r: "make_record sd = Inr r"
    using make_record_present [OF assms(2)] by simp
  have keys: "distinct (map fst r)" "length (map fst r) = 14"
    "set (map fst r) = set schema_fields"
    unfolding make_record_keys [OF r] schema_fields_eq by simp_all
  have nd: "fst (new_data s sd) = s\<lparr>current_data := current_data s @ [r]\<rparr>"
    using r by (simp add: new_data_def Let_def split: sum.splits)
  have ne: "chain (s\<lparr>current_data := current_data s @ [r]\<rparr>) \<noteq> []"
    using assms(1) by simp
  have "\<forall>b. snd (new_block fr lim (s\<lparr>current_data := current_data s @ [r]\<rparr>) p None now) = Inr b \<longrightarrow>
                  data b = current_data s @ [r]"
    by (cases "hash fr lim (block_dict (last (chain (s\<lparr>current_data := current_data s @ [r]\<rparr>))))")
       (auto simp: new_block_hashed [OF ne] new_block_raises [OF ne])
  then show ?thesis
    unfolding nd using keys
    by (intro exI [of _ r]) simp
qed

text \<open>A submission with the extra key \<^verbatim>\<open>colour\<close>, then a sealing.\<close>

theorem stored_record_schema_witness:
  "\<exists>r b. current_data (fst (new_data (init (\<lambda>_. ''0.0'') 1000 0)
            [''users'' \<mapsto> JInt 1, ''dh_parameters'' \<mapsto> JInt 2, ''server_public_key'' \<mapsto> JInt 3,
             ''receiver_public_key'' \<mapsto> JInt 4, ''sender_public_key'' \<mapsto> JInt 5,
             ''colour'' \<mapsto> JStr ''red''])) = [r] \<and>
         ''colour'' \<notin> set (map fst r) \<and> length r = 14 \<and>
         set (map fst r) = set schema_fields \<and>
         snd (new_block (\<lambda>_. ''0.0'') 1000 (fst (new_data (init (\<lambda>_. ''0.0'') 1000 0)
            [''users'' \<mapsto> JInt 1, ''dh_parameters'' \<mapsto> JInt 2, ''server_public_key'' \<mapsto> JInt 3,
             ''receiver_public_key'' \<mapsto> JInt 4, ''sender_public_key'' \<mapsto> JInt 5,
             ''colour'' \<mapsto> JStr ''red''])) 7 None 0) = Inr b \<and>
         data b = [r]"
proof -
  obtain h where h: "hash (\<lambda>_. ''0.0'') 1000
       (block_dict \<lparr>index = 1, timestamp = 0, data = [], proof = 100, previous_hash = ''1''\<rparr>) =
       Inr h"
    using hash_genesis [of "\<lambda>_. ''0.0''" 998 0] by auto
  have c: "''colour'' \<notin> set schema_fields"
    by (simp add: schema_fields_def required_fields_def optional_defaults_def)
  obtain r where r:
    "current_data (fst (new_data (init (\<lambda>_. ''0.0'') 1000 0)
            [''users'' \<mapsto> JInt 1, ''dh_parameters'' \<mapsto> JInt 2, ''server_public_key'' \<mapsto> JInt 3,
             ''receiver_public_key'' \<mapsto> JInt 4, ''sender_public_key'' \<mapsto> JInt 5,
             ''colour'' \<mapsto> JStr ''red''])) = current_data (init (\<lambda>_. ''0.0'') 1000 0) @ [r]"
    "length r = 14" "set (map fst r) = set schema_fields"
    using stored_record_schema [of "init (\<lambda>_. ''0.0'') 1000 0"
            "[''users'' \<mapsto> JInt 1, ''dh_parameters'' \<mapsto> JInt 2, ''server_public_key'' \<mapsto> JInt 3,
             ''receiver_public_key'' \<mapsto> JInt 4, ''sender_public_key'' \<mapsto> JInt 5,
             ''colour'' \<mapsto> JStr ''red'']" "\<lambda>_. ''0.0''" 1000 7 0]
    by (auto simp: required_fields_def init_eq)
  let ?s = "fst (new_data (init (\<lambda>_. ''0.0'') 1000 0)
            [''users'' \<mapsto> JInt 1, ''dh_parameters'' \<mapsto> JInt 2, ''server_public_key'' \<mapsto> JInt 3,
             ''receiver_public_key'' \<mapsto> JInt 4, ''sender_public_key'' \<mapsto> JInt 5,
             ''colour'' \<mapsto> JStr ''red''])"
  have ch: "chain ?s = [\<lparr>index = 1, timestamp = 0, data = [], proof = 100, previous_hash = ''1''\<rparr>]"
    by (simp add: chain_new_data init_eq)
  have cd: "current_data ?s = [r]" using r(1) by (simp add: init_eq)
  have "snd (new_block (\<lambda>_. ''0.0'') 1000 ?s 7 None 0) =
          Inr \<lparr>index = 2, timestamp = 0, data = [r], proof = 7, previous_hash = h\<rparr>"
    using new_block_hashed [of ?s "\<lambda>_. ''0.0''" 1000 h 7 0] h ch cd by simp
  then show ?thesis using r c cd by auto
qed

end
